theory Spec2Isabelle
  imports Main "HOL-Library.Word" "HOL-Library.Sublist"
begin

section \<open>The storage world of DM-Backend's fragmentation directory\<close>

text \<open>
  The Go package \<open>database\<close> keeps a key-to-shard index in a LevelDB store that it opens
  at \<open>Database/GlobalSchema\<close> for every single operation. The functions return Go
  \<open>error\<close> values and act on the file system and on the store; here every function takes
  the world it acts on and returns its result together with the world it leaves behind.

  Go errors: the sentinels of the package (\<open>errors.New\<close>), the two causes that come from
  outside the package (LevelDB's not-found error and any other failure of the operating
  system or of the storage engine), and \<open>Wrap e\<close> for \<open>fmt.Errorf("%w ...", e, ...)\<close>,
  a new error value whose chain holds \<open>e\<close>. The message text is not kept.
\<close>

datatype error =
    ErrInvalidPath
  | ErrDatabaseOpen
  | ErrDirectoryCreate
  | ErrShardNotFound
  | ErrFragmentationWrite
  | ErrFragmentationRead
  | ErrShardConversion
  | ErrEmptyKey
  | LevelDBNotFound
  | IOError
  | Wrap error

text \<open>\<open>errors.Is\<close>: the target is the error itself or is found down its chain.\<close>

fun errors_Is :: "error \<Rightarrow> error \<Rightarrow> bool" where
  "errors_Is (Wrap e) target = (Wrap e = target \<or> errors_Is e target)"
| "errors_Is e target = (e = target)"

text \<open>
  Every call that leaves the process is an event; the world records them in order, so that
  "no I/O" is a statement about the trace. \<open>log.Printf\<close> is not modelled.
\<close>

datatype io =
    Stat string
  | MkdirAll string
  | OpenFile string
  | DbGet string string
  | DbPut string string string
  | DbDelete string string
  | DbClose string

record world =
  dirs :: "string set"
  stores :: "string \<Rightarrow> (string \<rightharpoonup> string)"
  trace :: "io list"

text \<open>
  The environment decides which calls fail: \<open>env t a\<close> holds when the call \<open>a\<close>, made
  after the calls \<open>t\<close>, fails for a reason of the operating system or the storage engine
  (permissions, a held lock, a broken disk).
\<close>

type_synonym env = "io list \<Rightarrow> io \<Rightarrow> bool"

definition no_faults :: "env \<Rightarrow> bool" where
  "no_faults env = (\<forall>t a. \<not> env t a)"

definition healthy :: env where
  "healthy = (\<lambda>t a. False)"

definition fresh :: world where
  "fresh = \<lparr>dirs = {}, stores = (\<lambda>p. Map.empty), trace = []\<rparr>"

subsection \<open>The operating system and the storage engine\<close>

datatype stat_result = StatOk | StatNotExist | StatError

definition os_Stat :: "env \<Rightarrow> string \<Rightarrow> world \<Rightarrow> stat_result \<times> world" where
  "os_Stat env dir w =
     (let w' = w\<lparr>trace := trace w @ [Stat dir]\<rparr>
      in if env (trace w) (Stat dir) then (StatError, w')
         else if dir \<in> dirs w then (StatOk, w')
         else (StatNotExist, w'))"

text \<open>\<open>os.MkdirAll\<close> creates the directory and every missing parent.\<close>

definition path_chain :: "string \<Rightarrow> string list" where
  "path_chain p =
     filter (\<lambda>q. q \<noteq> [] \<and> (q = p \<or> p ! length q = CHR ''/'')) (prefixes p)"

definition os_MkdirAll :: "env \<Rightarrow> string \<Rightarrow> world \<Rightarrow> error option \<times> world" where
  "os_MkdirAll env dir w =
     (let w' = w\<lparr>trace := trace w @ [MkdirAll dir]\<rparr>
      in if env (trace w) (MkdirAll dir) then (Some IOError, w')
         else (None, w'\<lparr>dirs := dirs w \<union> set (path_chain dir)\<rparr>))"

text \<open>
  An open store is named by its path. What the engine keeps inside its own directory is
  not modelled; its content is the map \<open>stores w path\<close>.
\<close>

definition leveldb_OpenFile :: "env \<Rightarrow> string \<Rightarrow> world \<Rightarrow> error option \<times> world" where
  "leveldb_OpenFile env p w =
     (let w' = w\<lparr>trace := trace w @ [OpenFile p]\<rparr>
      in if env (trace w) (OpenFile p) then (Some IOError, w') else (None, w'))"

definition ldb_Get :: "env \<Rightarrow> string \<Rightarrow> string \<Rightarrow> world \<Rightarrow> (error + string) \<times> world" where
  "ldb_Get env ldb key w =
     (let w' = w\<lparr>trace := trace w @ [DbGet ldb key]\<rparr>
      in if env (trace w) (DbGet ldb key) then (Inl IOError, w')
         else case stores w ldb key of
                None \<Rightarrow> (Inl LevelDBNotFound, w')
              | Some v \<Rightarrow> (Inr v, w'))"

definition ldb_Put :: "env \<Rightarrow> string \<Rightarrow> string \<Rightarrow> string \<Rightarrow> world \<Rightarrow> error option \<times> world" where
  "ldb_Put env ldb key v w =
     (let w' = w\<lparr>trace := trace w @ [DbPut ldb key v]\<rparr>
      in if env (trace w) (DbPut ldb key v) then (Some IOError, w')
         else (None, w'\<lparr>stores := (stores w)(ldb := (stores w ldb)(key \<mapsto> v))\<rparr>))"

definition ldb_Delete :: "env \<Rightarrow> string \<Rightarrow> string \<Rightarrow> world \<Rightarrow> error option \<times> world" where
  "ldb_Delete env ldb key w =
     (let w' = w\<lparr>trace := trace w @ [DbDelete ldb key]\<rparr>
      in if env (trace w) (DbDelete ldb key) then (Some IOError, w')
         else (None, w'\<lparr>stores := (stores w)(ldb := (stores w ldb)(key := None))\<rparr>))"

text \<open>\<open>defer ldb.Close()\<close>: the result of closing is dropped.\<close>

definition ldb_Close :: "string \<Rightarrow> world \<Rightarrow> world" where
  "ldb_Close ldb w = w\<lparr>trace := trace w @ [DbClose ldb]\<rparr>"

section \<open>Go's library functions used by the package\<close>

subsection \<open>strings.TrimSpace and strings.Trim\<close>

text \<open>
  A Go string is a sequence of bytes. \<open>strings.TrimSpace\<close> removes the leading and the
  trailing white space as Unicode defines it; these are the UTF-8 encodings of the code
  points for which \<open>unicode.IsSpace\<close> holds.
\<close>

definition space_runes :: "string list" where
  "space_runes =
     [[CHR 0x09], [CHR 0x0A], [CHR 0x0B], [CHR 0x0C], [CHR 0x0D], [CHR 0x20],
      [CHR 0xC2, CHR 0x85], [CHR 0xC2, CHR 0xA0],
      [CHR 0xE1, CHR 0x9A, CHR 0x80],
      [CHR 0xE2, CHR 0x80, CHR 0x80], [CHR 0xE2, CHR 0x80, CHR 0x81],
      [CHR 0xE2, CHR 0x80, CHR 0x82], [CHR 0xE2, CHR 0x80, CHR 0x83],
      [CHR 0xE2, CHR 0x80, CHR 0x84], [CHR 0xE2, CHR 0x80, CHR 0x85],
      [CHR 0xE2, CHR 0x80, CHR 0x86], [CHR 0xE2, CHR 0x80, CHR 0x87],
      [CHR 0xE2, CHR 0x80, CHR 0x88], [CHR 0xE2, CHR 0x80, CHR 0x89],
      [CHR 0xE2, CHR 0x80, CHR 0x8A],
      [CHR 0xE2, CHR 0x80, CHR 0xA8], [CHR 0xE2, CHR 0x80, CHR 0xA9],
      [CHR 0xE2, CHR 0x80, CHR 0xAF],
      [CHR 0xE2, CHR 0x81, CHR 0x9F],
      [CHR 0xE3, CHR 0x80, CHR 0x80]]"

definition leading_space :: "string \<Rightarrow> nat" where
  "leading_space s =
     (case find (\<lambda>r. prefix r s) space_runes of None \<Rightarrow> 0 | Some r \<Rightarrow> length r)"

definition trailing_space :: "string \<Rightarrow> nat" where
  "trailing_space s =
     (case find (\<lambda>r. suffix r s) space_runes of None \<Rightarrow> 0 | Some r \<Rightarrow> length r)"

lemma leading_space_le: "leading_space s \<le> length s"
  by (auto simp: leading_space_def prefix_def split: option.splits dest!: find_Some_iff[THEN iffD1])

lemma trailing_space_le: "trailing_space s \<le> length s"
  by (auto simp: trailing_space_def suffix_def split: option.splits dest!: find_Some_iff[THEN iffD1])

function trim_left_space :: "string \<Rightarrow> string" where
  "trim_left_space s =
     (if leading_space s = 0 then s else trim_left_space (drop (leading_space s) s))"
  by pat_completeness auto
termination
proof (relation "measure length")
  fix s :: string
  assume "leading_space s \<noteq> 0"
  moreover have "leading_space s \<le> length s" by (rule leading_space_le)
  ultimately show "(drop (leading_space s) s, s) \<in> measure length" by simp
qed simp

function trim_right_space :: "string \<Rightarrow> string" where
  "trim_right_space s =
     (if trailing_space s = 0 then s
      else trim_right_space (take (length s - trailing_space s) s))"
  by pat_completeness auto
termination
proof (relation "measure length")
  fix s :: string
  assume "trailing_space s \<noteq> 0"
  moreover have "trailing_space s \<le> length s" by (rule trailing_space_le)
  ultimately show "(take (length s - trailing_space s) s, s) \<in> measure length" by simp
qed simp

declare trim_left_space.simps [simp del] trim_right_space.simps [simp del]

definition strings_TrimSpace :: "string \<Rightarrow> string" where
  "strings_TrimSpace s = trim_right_space (trim_left_space s)"

text \<open>
  \<open>strings.Trim(s, cutset)\<close> for a cutset of ASCII bytes (the package passes \<open>"/"\<close>):
  the leading and the trailing bytes that are in the cutset go.
\<close>

definition strings_Trim :: "string \<Rightarrow> string \<Rightarrow> string" where
  "strings_Trim s cutset =
     rev (dropWhile (\<lambda>c. c \<in> set cutset) (rev (dropWhile (\<lambda>c. c \<in> set cutset) s)))"

subsection \<open>path.Clean and path.Join\<close>

text \<open>
  \<open>path.Clean\<close> reads the path one element at a time (the text between two slashes) and
  writes the elements it keeps: an empty element and \<open>.\<close> are dropped; \<open>..\<close> removes the
  element written last when there is one to remove, is dropped at the root, and is
  written otherwise; any other element is written. The written elements are a stack,
  the last one first.
\<close>

fun split_slash :: "string \<Rightarrow> string list" where
  "split_slash [] = [[]]"
| "split_slash (c # cs) =
     (if c = CHR ''/'' then [] # split_slash cs
      else case split_slash cs of
             e # es \<Rightarrow> (c # e) # es
           | [] \<Rightarrow> [[c]])"

fun join_slash :: "string list \<Rightarrow> string" where
  "join_slash [] = []"
| "join_slash [e] = e"
| "join_slash (e # es) = e @ CHR ''/'' # join_slash es"

definition clean_elem :: "bool \<Rightarrow> string list \<Rightarrow> string \<Rightarrow> string list" where
  "clean_elem rooted out e =
     (if e = [] then out
      else if e = ''.'' then out
      else if e = ''..'' then
        (if out \<noteq> [] \<and> hd out \<noteq> ''..'' then tl out
         else if \<not> rooted then e # out
         else out)
      else e # out)"

definition path_Clean :: "string \<Rightarrow> string" where
  "path_Clean p =
     (if p = [] then ''.''
      else let rooted = (hd p = CHR ''/'');
               out = foldl (clean_elem rooted) [] (split_slash p);
               s = (if rooted then ''/'' else []) @ join_slash (rev out)
           in if s = [] then ''.'' else s)"

text \<open>
  \<open>path.Join\<close>: nothing for elements that are all empty; otherwise the elements from the
  first non-empty one on, with slashes between them, cleaned.
\<close>

fun join_buf :: "string \<Rightarrow> string list \<Rightarrow> string" where
  "join_buf buf [] = buf"
| "join_buf buf (e # es) =
     (if buf \<noteq> [] \<or> e \<noteq> []
      then join_buf ((if buf \<noteq> [] then buf @ ''/'' else buf) @ e) es
      else join_buf buf es)"

definition path_Join :: "string list \<Rightarrow> string" where
  "path_Join elem = (if concat elem = [] then [] else path_Clean (join_buf [] elem))"

section \<open>Opening a store: buildPath, CreateLevelDBDatabase, CleanPath\<close>

definition buildPath :: "env \<Rightarrow> string list \<Rightarrow> world \<Rightarrow> (error + string) \<times> world" where
  "buildPath env params w =
     (if length params < 2 then (Inl ErrInvalidPath, w)
      else
        let cleanedParams = map strings_TrimSpace params;
            dir = path_Join [cleanedParams ! 0, cleanedParams ! 1];
            final = (if length params > 2 then path_Join [dir, cleanedParams ! 2] else dir)
        in case os_Stat env dir w of
             (StatNotExist, w1) \<Rightarrow>
               (case os_MkdirAll env dir w1 of
                  (Some err, w2) \<Rightarrow> (Inl (Wrap err), w2)
                | (None, w2) \<Rightarrow> (Inr final, w2))
           | (_, w1) \<Rightarrow> (Inr final, w1))"

definition CreateLevelDBDatabase :: "env \<Rightarrow> string list \<Rightarrow> world \<Rightarrow> (error + string) \<times> world" where
  "CreateLevelDBDatabase env params w =
     (if length params < 2 then (Inl ErrInvalidPath, w)
      else case buildPath env params w of
             (Inl err, w1) \<Rightarrow> (Inl (Wrap ErrDirectoryCreate), w1)
           | (Inr dir, w1) \<Rightarrow>
               (case leveldb_OpenFile env dir w1 of
                  (Some err, w2) \<Rightarrow> (Inl (Wrap ErrDatabaseOpen), w2)
                | (None, w2) \<Rightarrow> (Inr dir, w2)))"

definition CleanPath :: "string \<Rightarrow> string" where
  "CleanPath p = path_Clean (strings_Trim p ''/'')"

section \<open>Shard numbers as text: fmt.Sprintf("%d") and strconv.ParseInt\<close>

text \<open>
  A shard is an \<open>int64\<close>: a 64-bit word read as a signed number. \<open>Sprintf_d\<close> is
  \<open>fmt.Sprintf("%d", shard)\<close>: the decimal digits, after a minus sign for a negative
  number.
\<close>

type_synonym int64 = "64 word"

definition digit_char :: "nat \<Rightarrow> char" where
  "digit_char d = char_of (48 + d)"

function digits10 :: "nat \<Rightarrow> string" where
  "digits10 n = (if n < 10 then [digit_char n] else digits10 (n div 10) @ [digit_char (n mod 10)])"
  by pat_completeness auto
termination
  by (relation "measure id") auto

declare digits10.simps [simp del]

definition Sprintf_d :: "int64 \<Rightarrow> string" where
  "Sprintf_d shard =
     (if sint shard < 0 then CHR ''-'' # digits10 (nat (- sint shard))
      else digits10 (nat (sint shard)))"

text \<open>
  \<open>strconv.ParseInt(s, 10, 64)\<close>: an optional sign, then \<open>strconv.ParseUint\<close> on the
  rest: at least one byte, every byte a decimal digit, the value below \<open>2^64\<close>; then the
  value has to fit the sign. The number returned beside an error is not kept.
\<close>

datatype num_error = ErrSyntax | ErrRange

definition is_digit :: "char \<Rightarrow> bool" where
  "is_digit c = (48 \<le> (of_char c :: nat) \<and> (of_char c :: nat) \<le> 57)"

definition digit_val :: "char \<Rightarrow> nat" where
  "digit_val c = of_char c - 48"

fun parse_digits :: "nat \<Rightarrow> string \<Rightarrow> num_error + nat" where
  "parse_digits n [] = Inr n"
| "parse_digits n (c # cs) =
     (if \<not> is_digit c then Inl ErrSyntax
      else if n * 10 + digit_val c \<ge> 2 ^ 64 then Inl ErrRange
      else parse_digits (n * 10 + digit_val c) cs)"

definition ParseUint :: "string \<Rightarrow> num_error + nat" where
  "ParseUint s = (if s = [] then Inl ErrSyntax else parse_digits 0 s)"

definition ParseInt :: "string \<Rightarrow> num_error + int64" where
  "ParseInt s0 =
     (if s0 = [] then Inl ErrSyntax
      else
        let neg = (hd s0 = CHR ''-'');
            s = (if hd s0 = CHR ''+'' \<or> hd s0 = CHR ''-'' then tl s0 else s0)
        in case ParseUint s of
             Inl ErrSyntax \<Rightarrow> Inl ErrSyntax
           | Inl ErrRange \<Rightarrow> Inl ErrRange
           | Inr un \<Rightarrow>
               if \<not> neg \<and> un \<ge> 2 ^ 63 then Inl ErrRange
               else if neg \<and> un > 2 ^ 63 then Inl ErrRange
               else Inr (if neg then - word_of_nat un else word_of_nat un))"

section \<open>The fragmentation directory\<close>

definition GlobalSchemaPath :: string where
  "GlobalSchemaPath = ''GlobalSchema''"

definition DefaultBaseDir :: string where
  "DefaultBaseDir = ''Database/''"

definition open_schema :: "env \<Rightarrow> world \<Rightarrow> (error + string) \<times> world" where
  "open_schema env w = CreateLevelDBDatabase env [DefaultBaseDir, GlobalSchemaPath, ''/''] w"

text \<open>
  The loop of \<open>FragmentationAdd\<close> over its keys: an empty key is skipped, the first write
  that fails ends the loop with its error, and what was written before stays.
\<close>

fun add_keys :: "env \<Rightarrow> string \<Rightarrow> string \<Rightarrow> string list \<Rightarrow> world \<Rightarrow> error option \<times> world" where
  "add_keys env ldb shardBytes [] w = (None, w)"
| "add_keys env ldb shardBytes (key # keys) w =
     (if key = [] then add_keys env ldb shardBytes keys w
      else case ldb_Put env ldb key shardBytes w of
             (Some err, w') \<Rightarrow> (Some (Wrap ErrFragmentationWrite), w')
           | (None, w') \<Rightarrow> add_keys env ldb shardBytes keys w')"

definition FragmentationAdd :: "env \<Rightarrow> int64 \<Rightarrow> string list \<Rightarrow> world \<Rightarrow> error option \<times> world" where
  "FragmentationAdd env shard keys w =
     (if length keys = 0 then (Some ErrEmptyKey, w)
      else case open_schema env w of
             (Inl err, w1) \<Rightarrow> (Some (Wrap ErrDatabaseOpen), w1)
           | (Inr ldb, w1) \<Rightarrow>
               (case add_keys env ldb (Sprintf_d shard) keys w1 of
                  (r, w2) \<Rightarrow> (r, ldb_Close ldb w2)))"

definition FragmentationRemove :: "env \<Rightarrow> string \<Rightarrow> world \<Rightarrow> error option \<times> world" where
  "FragmentationRemove env key w =
     (if key = [] then (Some ErrEmptyKey, w)
      else case open_schema env w of
             (Inl err, w1) \<Rightarrow> (Some (Wrap ErrDatabaseOpen), w1)
           | (Inr ldb, w1) \<Rightarrow>
               (case ldb_Get env ldb key w1 of
                  (Inl err, w2) \<Rightarrow> (Some (Wrap ErrShardNotFound), ldb_Close ldb w2)
                | (Inr v, w2) \<Rightarrow>
                    (case ldb_Delete env ldb key w2 of
                       (Some err, w3) \<Rightarrow> (Some (Wrap ErrFragmentationWrite), ldb_Close ldb w3)
                     | (None, w3) \<Rightarrow> (None, ldb_Close ldb w3))))"

text \<open>
  \<open>FragmentationGet\<close> returns \<open>-1\<close> beside every error; the result here is the error or
  the shard.
\<close>

definition FragmentationGet :: "env \<Rightarrow> string \<Rightarrow> world \<Rightarrow> (error + int64) \<times> world" where
  "FragmentationGet env rowID w =
     (if rowID = [] then (Inl ErrEmptyKey, w)
      else case open_schema env w of
             (Inl err, w1) \<Rightarrow> (Inl (Wrap ErrDatabaseOpen), w1)
           | (Inr ldb, w1) \<Rightarrow>
               (case ldb_Get env ldb rowID w1 of
                  (Inl err, w2) \<Rightarrow> (Inl (Wrap ErrShardNotFound), ldb_Close ldb w2)
                | (Inr shard, w2) \<Rightarrow>
                    (case ParseInt shard of
                       Inl err \<Rightarrow> (Inl (Wrap ErrShardConversion), ldb_Close ldb w2)
                     | Inr n \<Rightarrow> (Inr n, ldb_Close ldb w2))))"

text \<open>\<open>FragmentationExists\<close> returns \<open>false\<close> beside its errors.\<close>

definition FragmentationExists :: "env \<Rightarrow> string \<Rightarrow> world \<Rightarrow> (error + bool) \<times> world" where
  "FragmentationExists env key w =
     (if key = [] then (Inl ErrEmptyKey, w)
      else case open_schema env w of
             (Inl err, w1) \<Rightarrow> (Inl (Wrap ErrDatabaseOpen), w1)
           | (Inr ldb, w1) \<Rightarrow>
               (case ldb_Get env ldb key w1 of
                  (Inl err, w2) \<Rightarrow> (Inr False, ldb_Close ldb w2)
                | (Inr v, w2) \<Rightarrow> (Inr True, ldb_Close ldb w2)))"

definition FragmentationUpdate :: "env \<Rightarrow> string \<Rightarrow> int64 \<Rightarrow> world \<Rightarrow> error option \<times> world" where
  "FragmentationUpdate env key newShard w =
     (if key = [] then (Some ErrEmptyKey, w)
      else case FragmentationExists env key w of
             (Inl err, w1) \<Rightarrow> (Some err, w1)
           | (Inr exists, w1) \<Rightarrow>
               if \<not> exists then (Some (Wrap ErrShardNotFound), w1)
               else case open_schema env w1 of
                      (Inl err, w2) \<Rightarrow> (Some (Wrap ErrDatabaseOpen), w2)
                    | (Inr ldb, w2) \<Rightarrow>
                        (case ldb_Put env ldb key (Sprintf_d newShard) w2 of
                           (Some err, w3) \<Rightarrow> (Some (Wrap ErrFragmentationWrite), ldb_Close ldb w3)
                         | (None, w3) \<Rightarrow> (None, ldb_Close ldb w3)))"

text \<open>Where \<open>buildPath\<close> puts the store of the directory.\<close>

definition schema_dir :: string where
  "schema_dir = ''Database/GlobalSchema''"

text \<open>
  The worlds the directory can be in when nothing but its own operations has touched its
  store: the store starts empty, and every call of an operation, whatever its arguments
  and whatever fails during it, leads to such a world again.
\<close>

inductive reachable :: "world \<Rightarrow> bool" where
  start: "stores w schema_dir = Map.empty \<Longrightarrow> reachable w"
| add: "reachable w \<Longrightarrow> reachable (snd (FragmentationAdd env shard keys w))"
| update: "reachable w \<Longrightarrow> reachable (snd (FragmentationUpdate env key shard w))"
| remove: "reachable w \<Longrightarrow> reachable (snd (FragmentationRemove env key w))"
| get: "reachable w \<Longrightarrow> reachable (snd (FragmentationGet env key w))"
| exists: "reachable w \<Longrightarrow> reachable (snd (FragmentationExists env key w))"

text \<open>
  The invariant of the store of the directory: every value in it is the decimal text of
  some \<open>int64\<close>, as \<open>fmt.Sprintf("%d")\<close> writes it.
\<close>

definition decimal_store :: "world \<Rightarrow> bool" where
  "decimal_store w = (\<forall>k v. stores w schema_dir k = Some v \<longrightarrow> (\<exists>n. v = Sprintf_d n))"

section \<open>Shard numbers survive the trip through their text\<close>

lemma is_digit_digit_char: "d < 10 \<Longrightarrow> is_digit (digit_char d)"
  by (simp add: is_digit_def digit_char_def)

lemma digit_val_digit_char: "d < 10 \<Longrightarrow> digit_val (digit_char d) = d"
  by (simp add: digit_val_def digit_char_def)

lemma digits10_not_Nil: "digits10 n \<noteq> []"
  by (subst digits10.simps) simp

lemma digits10_all_digits: "c \<in> set (digits10 n) \<Longrightarrow> is_digit c"
proof (induction n arbitrary: c rule: digits10.induct)
  case (1 n)
  show ?case
  proof (cases "n < 10")
    case True
    with "1.prems" show ?thesis
      by (subst (asm) digits10.simps) (simp add: is_digit_digit_char)
  next
    case False
    with "1.prems" have "c \<in> set (digits10 (n div 10)) \<or> c = digit_char (n mod 10)"
      by (subst (asm) digits10.simps) auto
    then show ?thesis
      using "1.IH"[OF False] by (auto simp: is_digit_digit_char)
  qed
qed

lemma hd_digits10_digit: "is_digit (hd (digits10 n))"
  using digits10_all_digits[of "hd (digits10 n)" n] digits10_not_Nil[of n] by simp

lemma parse_digits_snoc:
  "parse_digits a (xs @ [c]) =
     (case parse_digits a xs of
        Inl e \<Rightarrow> Inl e
      | Inr m \<Rightarrow>
          if \<not> is_digit c then Inl ErrSyntax
          else if m * 10 + digit_val c \<ge> 2 ^ 64 then Inl ErrRange
          else Inr (m * 10 + digit_val c))"
  by (induction xs arbitrary: a) simp_all

lemma parse_digits_digits10: "n < 2 ^ 64 \<Longrightarrow> parse_digits 0 (digits10 n) = Inr n"
proof (induction n rule: digits10.induct)
  case (1 n)
  show ?case
  proof (cases "n < 10")
    case True
    then have "digits10 n = [digit_char n]" by (subst digits10.simps) simp
    with True "1.prems" show ?thesis
      by (simp add: is_digit_digit_char digit_val_digit_char)
  next
    case False
    then have d: "digits10 n = digits10 (n div 10) @ [digit_char (n mod 10)]"
      by (subst digits10.simps) simp
    from "1.prems" have "n div 10 < 2 ^ 64" by simp
    with "1.IH"[OF False] have "parse_digits 0 (digits10 (n div 10)) = Inr (n div 10)" by simp
    with "1.prems" show ?thesis
      by (simp add: d parse_digits_snoc is_digit_digit_char digit_val_digit_char)
  qed
qed

lemma ParseUint_digits10: "n < 2 ^ 64 \<Longrightarrow> ParseUint (digits10 n) = Inr n"
  by (simp add: ParseUint_def digits10_not_Nil parse_digits_digits10)

lemma not_digit_sign: "\<not> is_digit CHR ''-''" "\<not> is_digit CHR ''+''"
  by (simp_all add: is_digit_def)

lemma ParseInt_Sprintf_d: "ParseInt (Sprintf_d shard) = Inr shard"
proof (cases "sint shard < 0")
  case True
  have lo: "- (2 ^ 63) \<le> sint shard" using sint_ge[of shard] by simp
  then have b: "nat (- sint shard) \<le> 2 ^ 63" by simp
  then have "nat (- sint shard) < 2 ^ 64" by simp
  then have pu: "ParseUint (digits10 (nat (- sint shard))) = Inr (nat (- sint shard))"
    by (rule ParseUint_digits10)
  have "(word_of_nat (nat (- sint shard)) :: 64 word) = word_of_int (- sint shard)"
    using True by (simp add: word_of_nat_eq_iff)
  then have w: "- (word_of_nat (nat (- sint shard)) :: 64 word) = shard"
    by simp
  show ?thesis
    using True b pu w by (simp add: ParseInt_def Sprintf_d_def)
next
  case False
  have hi: "sint shard < 2 ^ 63" using sint_lt[of shard] by simp
  then have b: "nat (sint shard) < 2 ^ 63" using False by simp
  then have "nat (sint shard) < 2 ^ 64" by simp
  then have pu: "ParseUint (digits10 (nat (sint shard))) = Inr (nat (sint shard))"
    by (rule ParseUint_digits10)
  have w: "(word_of_nat (nat (sint shard)) :: 64 word) = shard"
    using False by simp
  have h: "hd (digits10 (nat (sint shard))) \<noteq> CHR ''-''" "hd (digits10 (nat (sint shard))) \<noteq> CHR ''+''"
    using hd_digits10_digit[of "nat (sint shard)"] not_digit_sign by auto
  show ?thesis
    using False b pu w h by (simp add: ParseInt_def Sprintf_d_def digits10_not_Nil)
qed


section \<open>What the operations do to the store\<close>

lemma schema_join: 
  "path_Join [strings_TrimSpace DefaultBaseDir, strings_TrimSpace GlobalSchemaPath] = schema_dir"
  unfolding schema_dir_def by code_simp

lemma schema_join_slash: "path_Join [schema_dir, strings_TrimSpace ''/''] = schema_dir"
  unfolding schema_dir_def by code_simp

lemma buildPath_schema:
  "buildPath env [DefaultBaseDir, GlobalSchemaPath, ''/''] w =
     (case os_Stat env schema_dir w of
        (StatNotExist, w1) \<Rightarrow>
          (case os_MkdirAll env schema_dir w1 of
             (Some err, w2) \<Rightarrow> (Inl (Wrap err), w2)
           | (None, w2) \<Rightarrow> (Inr schema_dir, w2))
      | (_, w1) \<Rightarrow> (Inr schema_dir, w1))"
  by (simp add: buildPath_def schema_join schema_join_slash Let_def
      split: prod.split stat_result.split option.split)

lemma no_faultsD: "no_faults env \<Longrightarrow> \<not> env t a"
  by (simp add: no_faults_def)

lemma no_faults_healthy: "no_faults healthy"
  by (simp add: no_faults_def healthy_def)

lemma open_schema_cases:
  assumes "open_schema env w = (r, w1)"
  shows "stores w1 = stores w"
    and "r = Inr schema_dir \<or> r = Inl (Wrap ErrDirectoryCreate) \<or> r = Inl (Wrap ErrDatabaseOpen)"
    and "\<exists>t. trace w1 = trace w @ Stat schema_dir # t"
  using assms
  by (auto simp: open_schema_def CreateLevelDBDatabase_def buildPath_schema os_Stat_def
      os_MkdirAll_def leveldb_OpenFile_def Let_def split: if_splits)

lemma open_schema_ok:
  assumes "no_faults env"
  shows "fst (open_schema env w) = Inr schema_dir"
  using no_faultsD[OF assms]
  by (simp add: open_schema_def CreateLevelDBDatabase_def buildPath_schema os_Stat_def
      os_MkdirAll_def leveldb_OpenFile_def Let_def)


lemma open_schema_okE:
  assumes "no_faults env"
  obtains w1 where "open_schema env w = (Inr schema_dir, w1)" "stores w1 = stores w"
proof -
  obtain r w1 where o: "open_schema env w = (r, w1)" by (cases "open_schema env w")
  with open_schema_ok[OF assms, of w] have "r = Inr schema_dir" by simp
  with o open_schema_cases(1)[OF o] that show ?thesis by simp
qed

lemma add_keys_None:
  "add_keys env ldb v keys w = (None, w') \<Longrightarrow>
     stores w' p k = (if p = ldb \<and> k \<noteq> [] \<and> k \<in> set keys then Some v else stores w p k)"
proof (induction keys arbitrary: w)
  case Nil
  then show ?case by simp
next
  case (Cons key keys)
  show ?case
  proof (cases "key = []")
    case True
    with Cons show ?thesis by auto
  next
    case False
    with Cons.prems obtain w1 where
      p: "ldb_Put env ldb key v w = (None, w1)" and r: "add_keys env ldb v keys w1 = (None, w')"
      by (auto split: prod.splits option.splits)
    from p have "stores w1 = (stores w)(ldb := (stores w ldb)(key \<mapsto> v))"
      by (auto simp: ldb_Put_def Let_def split: if_splits)
    with Cons.IH[OF r] False show ?thesis by auto
  qed
qed

lemma add_keys_any:
  "add_keys env ldb v keys w = (r, w') \<Longrightarrow>
     stores w' p k = stores w p k \<or> (p = ldb \<and> k \<noteq> [] \<and> stores w' p k = Some v)"
proof (induction keys arbitrary: w)
  case Nil
  then show ?case by simp
next
  case (Cons key keys)
  show ?case
  proof (cases "key = []")
    case True
    with Cons show ?thesis by auto
  next
    case False
    obtain e w1 where p: "ldb_Put env ldb key v w = (e, w1)" by (cases "ldb_Put env ldb key v w")
    then have s1: "stores w1 = stores w \<or> stores w1 = (stores w)(ldb := (stores w ldb)(key \<mapsto> v))"
      by (auto simp: ldb_Put_def Let_def split: if_splits)
    show ?thesis
    proof (cases e)
      case None
      with p False Cons.prems have "add_keys env ldb v keys w1 = (r, w')" by simp
      from Cons.IH[OF this] s1 False show ?thesis by (auto split: if_splits)
    next
      case (Some err)
      with p False Cons.prems have "w' = w1" by simp
      with s1 False show ?thesis by (auto split: if_splits)
    qed
  qed
qed

lemma add_keys_ok: "no_faults env \<Longrightarrow> fst (add_keys env ldb v keys w) = None"
  by (induction keys arbitrary: w) (auto simp: ldb_Put_def Let_def no_faultsD)

lemma stores_ldb_Close [simp]: "stores (ldb_Close ldb w) = stores w"
  by (simp add: ldb_Close_def)

lemma Add_None:
  assumes "FragmentationAdd env shard keys w = (None, w')"
  shows "stores w' p k =
    (if p = schema_dir \<and> k \<noteq> [] \<and> k \<in> set keys then Some (Sprintf_d shard) else stores w p k)"
proof -
  obtain r w1 where o: "open_schema env w = (r, w1)" by (cases "open_schema env w")
  obtain r2 w2 where a: "add_keys env schema_dir (Sprintf_d shard) keys w1 = (r2, w2)"
    by (cases "add_keys env schema_dir (Sprintf_d shard) keys w1")
  from assms o open_schema_cases(2)[OF o] have r: "r = Inr schema_dir"
    by (auto simp: FragmentationAdd_def split: if_splits)
  with assms o a have "r2 = None" "w' = ldb_Close schema_dir w2"
    by (auto simp: FragmentationAdd_def split: if_splits)
  with add_keys_None[of env schema_dir "Sprintf_d shard" keys w1 w2 p k] a open_schema_cases(1)[OF o]
  show ?thesis by simp
qed

lemma Add_any:
  "stores (snd (FragmentationAdd env shard keys w)) p k = stores w p k \<or>
   (p = schema_dir \<and> k \<noteq> [] \<and>
    stores (snd (FragmentationAdd env shard keys w)) p k = Some (Sprintf_d shard))"
proof -
  obtain r w1 where o: "open_schema env w = (r, w1)" by (cases "open_schema env w")
  obtain r2 w2 where a: "add_keys env schema_dir (Sprintf_d shard) keys w1 = (r2, w2)"
    by (cases "add_keys env schema_dir (Sprintf_d shard) keys w1")
  show ?thesis
    using o a open_schema_cases(1,2)[OF o] add_keys_any[OF a, of p k]
    by (auto simp: FragmentationAdd_def)
qed

lemma Add_ok:
  assumes "no_faults env" "keys \<noteq> []"
  shows "fst (FragmentationAdd env shard keys w) = None"
proof -
  obtain w1 where o: "open_schema env w = (Inr schema_dir, w1)"
    by (rule open_schema_okE[OF assms(1)])
  with assms add_keys_ok[OF assms(1), of schema_dir "Sprintf_d shard" keys w1]
  show ?thesis by (auto simp: FragmentationAdd_def split: prod.splits)
qed

lemma Get_stores: "stores (snd (FragmentationGet env key w)) = stores w"
proof -
  obtain r w1 where o: "open_schema env w = (r, w1)" by (cases "open_schema env w")
  with open_schema_cases(1)[OF o] show ?thesis
    by (auto simp: FragmentationGet_def ldb_Get_def Let_def split: sum.splits option.splits)
qed

lemma Get_result:
  assumes "no_faults env" "key \<noteq> []"
  shows "fst (FragmentationGet env key w) =
    (case stores w schema_dir key of
       None \<Rightarrow> Inl (Wrap ErrShardNotFound)
     | Some v \<Rightarrow> (case ParseInt v of Inl e \<Rightarrow> Inl (Wrap ErrShardConversion) | Inr n \<Rightarrow> Inr n))"
proof -
  obtain w1 where o: "open_schema env w = (Inr schema_dir, w1)" "stores w1 = stores w"
    by (rule open_schema_okE[OF assms(1)])
  with assms show ?thesis
    by (auto simp: FragmentationGet_def ldb_Get_def Let_def no_faultsD
        split: sum.splits option.splits)
qed

lemma Get_conversion:
  assumes "fst (FragmentationGet env key w) = Inl (Wrap ErrShardConversion)"
  shows "\<exists>v e. stores w schema_dir key = Some v \<and> ParseInt v = Inl e"
proof -
  obtain r w1 where o: "open_schema env w = (r, w1)" by (cases "open_schema env w")
  with assms open_schema_cases(1,2)[OF o] show ?thesis
    by (auto simp: FragmentationGet_def ldb_Get_def Let_def
        split: sum.splits option.splits if_splits)
qed

lemma Exists_stores: "stores (snd (FragmentationExists env key w)) = stores w"
proof -
  obtain r w1 where o: "open_schema env w = (r, w1)" by (cases "open_schema env w")
  with open_schema_cases(1)[OF o] show ?thesis
    by (auto simp: FragmentationExists_def ldb_Get_def Let_def split: sum.splits option.splits)
qed

lemma Exists_result:
  assumes "no_faults env" "key \<noteq> []"
  shows "fst (FragmentationExists env key w) = Inr (stores w schema_dir key \<noteq> None)"
proof -
  obtain w1 where o: "open_schema env w = (Inr schema_dir, w1)" "stores w1 = stores w"
    by (rule open_schema_okE[OF assms(1)])
  with assms show ?thesis
    by (auto simp: FragmentationExists_def ldb_Get_def Let_def no_faultsD
        split: sum.splits option.splits)
qed

lemma Remove_stores:
  "stores (snd (FragmentationRemove env key w)) p k = stores w p k \<or>
   stores (snd (FragmentationRemove env key w)) p k = None"
proof -
  obtain r w1 where o: "open_schema env w = (r, w1)" by (cases "open_schema env w")
  with open_schema_cases(1,2)[OF o] show ?thesis
    by (auto simp: FragmentationRemove_def ldb_Get_def ldb_Delete_def Let_def
        split: sum.splits option.splits)
qed

lemma Remove_result:
  assumes "no_faults env" "key \<noteq> []"
  shows "fst (FragmentationRemove env key w) =
           (if stores w schema_dir key = None then Some (Wrap ErrShardNotFound) else None)"
    and "stores (snd (FragmentationRemove env key w)) =
           (if stores w schema_dir key = None then stores w
            else (stores w)(schema_dir := (stores w schema_dir)(key := None)))"
proof -
  obtain w1 where o: "open_schema env w = (Inr schema_dir, w1)" "stores w1 = stores w"
    by (rule open_schema_okE[OF assms(1)])
  with assms show "fst (FragmentationRemove env key w) =
           (if stores w schema_dir key = None then Some (Wrap ErrShardNotFound) else None)"
    by (auto simp: FragmentationRemove_def ldb_Get_def ldb_Delete_def Let_def no_faultsD
        split: sum.splits option.splits)
  from o assms show "stores (snd (FragmentationRemove env key w)) =
           (if stores w schema_dir key = None then stores w
            else (stores w)(schema_dir := (stores w schema_dir)(key := None)))"
    by (auto simp: FragmentationRemove_def ldb_Get_def ldb_Delete_def Let_def no_faultsD
        split: sum.splits option.splits)
qed

lemma Update_stores:
  "stores (snd (FragmentationUpdate env key shard w)) p k = stores w p k \<or>
   (p = schema_dir \<and> k \<noteq> [] \<and>
    stores (snd (FragmentationUpdate env key shard w)) p k = Some (Sprintf_d shard))"
proof (cases "key = []")
  case True
  then show ?thesis by (simp add: FragmentationUpdate_def)
next
  case False
  obtain r w1 where e: "FragmentationExists env key w = (r, w1)"
    by (cases "FragmentationExists env key w")
  then have s1: "stores w1 = stores w" using Exists_stores[of env key w] by simp
  obtain r2 w2 where o: "open_schema env w1 = (r2, w2)" by (cases "open_schema env w1")
  show ?thesis
    using False e s1 o open_schema_cases(1,2)[OF o]
    by (auto simp: FragmentationUpdate_def ldb_Put_def Let_def split: sum.splits)
qed

lemma Update_result:
  assumes "no_faults env" "key \<noteq> []"
  shows "fst (FragmentationUpdate env key shard w) =
           (if stores w schema_dir key = None then Some (Wrap ErrShardNotFound) else None)"
    and "stores (snd (FragmentationUpdate env key shard w)) =
           (if stores w schema_dir key = None then stores w
            else (stores w)(schema_dir := (stores w schema_dir)(key \<mapsto> Sprintf_d shard)))"
proof -
  obtain r w1 where e: "FragmentationExists env key w = (r, w1)"
    by (cases "FragmentationExists env key w")
  then have s1: "stores w1 = stores w" using Exists_stores[of env key w] by simp
  from e Exists_result[OF assms, of w] have r: "r = Inr (stores w schema_dir key \<noteq> None)" by simp
  obtain w2 where o: "open_schema env w1 = (Inr schema_dir, w2)" "stores w2 = stores w1"
    by (rule open_schema_okE[OF assms(1)])
  from assms e s1 r o show "fst (FragmentationUpdate env key shard w) =
           (if stores w schema_dir key = None then Some (Wrap ErrShardNotFound) else None)"
    by (auto simp: FragmentationUpdate_def ldb_Put_def Let_def no_faultsD)
  from assms e s1 r o show "stores (snd (FragmentationUpdate env key shard w)) =
           (if stores w schema_dir key = None then stores w
            else (stores w)(schema_dir := (stores w schema_dir)(key \<mapsto> Sprintf_d shard)))"
    by (auto simp: FragmentationUpdate_def ldb_Put_def Let_def no_faultsD)
qed

lemma Exists_any_env:
  assumes "key \<noteq> []"
  shows "fst (FragmentationExists env key w) =
    (case fst (open_schema env w) of
       Inl e \<Rightarrow> Inl (Wrap ErrDatabaseOpen)
     | Inr ldb \<Rightarrow> Inr (stores w schema_dir key \<noteq> None \<and>
                       \<not> env (trace (snd (open_schema env w))) (DbGet schema_dir key)))"
proof -
  obtain r w1 where o: "open_schema env w = (r, w1)" by (cases "open_schema env w")
  with assms open_schema_cases(1,2)[OF o] show ?thesis
    by (auto simp: FragmentationExists_def ldb_Get_def Let_def split: sum.splits option.splits)
qed

lemma Get_errors:
  assumes "fst (FragmentationGet env key w) = Inl e"
  shows "e = ErrEmptyKey \<or> e = Wrap ErrDatabaseOpen \<or> e = Wrap ErrShardNotFound \<or>
         e = Wrap ErrShardConversion"
proof -
  obtain r w1 where o: "open_schema env w = (r, w1)" by (cases "open_schema env w")
  with assms show ?thesis
    by (auto simp: FragmentationGet_def ldb_Get_def Let_def
        split: sum.splits option.splits if_splits)
qed

lemma Update_absent:
  assumes "stores w schema_dir key = None"
  shows "stores (snd (FragmentationUpdate env key newShard w)) = stores w"
proof (cases "key = []")
  case True
  then show ?thesis by (simp add: FragmentationUpdate_def)
next
  case False
  obtain r w1 where e: "FragmentationExists env key w = (r, w1)"
    by (cases "FragmentationExists env key w")
  then have s1: "stores w1 = stores w" using Exists_stores[of env key w] by simp
  from e Exists_any_env[OF False, of env w] assms have "r \<noteq> Inr True"
    by (auto split: sum.splits)
  with False e s1 show ?thesis
    by (auto simp: FragmentationUpdate_def split: sum.splits)
qed

lemma reachable_decimal_store: "reachable w \<Longrightarrow> decimal_store w"
proof (induction rule: reachable.induct)
  case (start w)
  then show ?case by (simp add: decimal_store_def)
next
  case (add w env shard keys)
  show ?case unfolding decimal_store_def
  proof (intro allI impI)
    fix k v assume "stores (snd (FragmentationAdd env shard keys w)) schema_dir k = Some v"
    with Add_any[of env shard keys w schema_dir k] add.IH
    show "\<exists>n. v = Sprintf_d n" by (auto simp: decimal_store_def)
  qed
next
  case (update w env key shard)
  show ?case unfolding decimal_store_def
  proof (intro allI impI)
    fix k v assume "stores (snd (FragmentationUpdate env key shard w)) schema_dir k = Some v"
    with Update_stores[of env key shard w schema_dir k] update.IH
    show "\<exists>n. v = Sprintf_d n" by (auto simp: decimal_store_def)
  qed
next
  case (remove w env key)
  show ?case unfolding decimal_store_def
  proof (intro allI impI)
    fix k v assume "stores (snd (FragmentationRemove env key w)) schema_dir k = Some v"
    with Remove_stores[of env key w schema_dir k] remove.IH
    show "\<exists>n. v = Sprintf_d n" by (auto simp: decimal_store_def)
  qed
next
  case (get w env key)
  then show ?case by (simp add: decimal_store_def Get_stores)
next
  case (exists w env key)
  then show ?case by (simp add: decimal_store_def Exists_stores)
qed

lemma corrupt_store_fails_conversion:
  "fst (FragmentationGet healthy ''k''
     (fresh\<lparr>stores := (stores fresh)(schema_dir := [''k'' \<mapsto> ''seven''])\<rparr>))
   = Inl (Wrap ErrShardConversion)"
  using Get_result[OF no_faults_healthy, of "''k''"
      "fresh\<lparr>stores := (stores fresh)(schema_dir := [''k'' \<mapsto> ''seven''])\<rparr>"]
  by (simp add: ParseInt_def ParseUint_def is_digit_def)

section \<open>The claims about the directory\<close>

text \<open>
  Claim C1 (round trip). For every non-empty key and every \<open>int64\<close> shard: when
  \<open>FragmentationAdd(shard, key)\<close> has returned success, a \<open>FragmentationGet(key)\<close> that
  meets no failure of the storage returns exactly that shard. The add may have run in any
  environment; only its success is assumed. The decimal text written by the add is read
  back by \<open>strconv.ParseInt\<close> as the same 64-bit number, also for negative shards and for
  the two ends of the range.
\<close>

theorem add_then_get_returns_shard:
  assumes "key \<noteq> []"
    and "FragmentationAdd env1 shard [key] w = (None, w1)"
    and "no_faults env2"
  shows "fst (FragmentationGet env2 key w1) = Inr shard"
proof -
  from Add_None[OF assms(2), of schema_dir key] assms(1)
  have "stores w1 schema_dir key = Some (Sprintf_d shard)" by simp
  with Get_result[OF assms(3,1), of w1] show ?thesis
    by (simp add: ParseInt_Sprintf_d)
qed

theorem add_then_get_returns_shard_witness:
  "''user_42'' \<noteq> [] \<and>
   fst (FragmentationAdd healthy 7 [''user_42''] fresh) = None \<and>
   no_faults healthy \<and>
   fst (FragmentationGet healthy ''user_42''
          (snd (FragmentationAdd healthy 7 [''user_42''] fresh))) = Inr 7"
proof -
  have a: "fst (FragmentationAdd healthy 7 [''user_42''] fresh) = None"
    by (rule Add_ok[OF no_faults_healthy]) simp
  then have "FragmentationAdd healthy 7 [''user_42''] fresh =
      (None, snd (FragmentationAdd healthy 7 [''user_42''] fresh))"
    by (simp add: prod_eq_iff)
  from add_then_get_returns_shard[OF _ this no_faults_healthy] a no_faults_healthy
  show ?thesis by simp
qed

text \<open>
  Claim C3 (a batch with an empty key). \<open>FragmentationAdd\<close> skips the empty strings in
  its key list and carries on: with a storage that does not fail, the call returns
  success, every non-empty key of the list then reads back as the shard, and the entry of
  the store under the empty key is what it was before, so none is created. The witness is
  the batch \<open>Add(1, "a", "", "b")\<close> on a fresh disk.
\<close>

theorem mixed_batch_skips_empty_key:
  assumes "no_faults env" and "no_faults env'" and "k \<in> set keys" and "k \<noteq> []"
  shows "fst (FragmentationAdd env shard keys w) = None \<and>
         fst (FragmentationGet env' k (snd (FragmentationAdd env shard keys w))) = Inr shard \<and>
         stores (snd (FragmentationAdd env shard keys w)) schema_dir [] = stores w schema_dir []"
proof -
  from assms(3) have ne: "keys \<noteq> []" by auto
  have a: "fst (FragmentationAdd env shard keys w) = None" by (rule Add_ok[OF assms(1) ne])
  then have eq: "FragmentationAdd env shard keys w = (None, snd (FragmentationAdd env shard keys w))"
    by (simp add: prod_eq_iff)
  from Add_None[OF eq, of schema_dir k] assms(3,4)
  have "stores (snd (FragmentationAdd env shard keys w)) schema_dir k = Some (Sprintf_d shard)"
    by simp
  with Get_result[OF assms(2,4)]
  have g: "fst (FragmentationGet env' k (snd (FragmentationAdd env shard keys w))) = Inr shard"
    by (simp add: ParseInt_Sprintf_d)
  from Add_None[OF eq, of schema_dir "[]"]
  have "stores (snd (FragmentationAdd env shard keys w)) schema_dir [] = stores w schema_dir []"
    by simp
  with a g show ?thesis by simp
qed

theorem mixed_batch_skips_empty_key_witness:
  "fst (FragmentationAdd healthy 1 [''a'', '''', ''b''] fresh) = None \<and>
   fst (FragmentationGet healthy ''a''
          (snd (FragmentationAdd healthy 1 [''a'', '''', ''b''] fresh))) = Inr 1 \<and>
   fst (FragmentationGet healthy ''b''
          (snd (FragmentationAdd healthy 1 [''a'', '''', ''b''] fresh))) = Inr 1 \<and>
   stores (snd (FragmentationAdd healthy 1 [''a'', '''', ''b''] fresh)) schema_dir '''' = None"
  using mixed_batch_skips_empty_key[OF no_faults_healthy no_faults_healthy,
          of "''a''" "[''a'', '''', ''b'']" 1 fresh]
        mixed_batch_skips_empty_key[OF no_faults_healthy no_faults_healthy,
          of "''b''" "[''a'', '''', ''b'']" 1 fresh]
  by (simp add: fresh_def)

text \<open>
  Claim C6 (blind upsert). For a non-empty key and a storage that does not fail, two
  calls of \<open>FragmentationAdd\<close> on the same key both succeed, the second one although the
  key is already assigned, and \<open>FragmentationGet\<close> then returns the shard of the second
  call. The witness is \<open>Add(5, "k")\<close>, \<open>Add(9, "k")\<close>, \<open>Get("k") = 9\<close>.
\<close>

theorem add_is_blind_upsert:
  assumes "key \<noteq> []" and "no_faults env1" and "no_faults env2" and "no_faults env3"
  shows "fst (FragmentationAdd env1 s1 [key] w) = None \<and>
         fst (FragmentationAdd env2 s2 [key] (snd (FragmentationAdd env1 s1 [key] w))) = None \<and>
         fst (FragmentationGet env3 key
               (snd (FragmentationAdd env2 s2 [key] (snd (FragmentationAdd env1 s1 [key] w)))))
           = Inr s2"
proof -
  let ?w1 = "snd (FragmentationAdd env1 s1 [key] w)"
  let ?w2 = "snd (FragmentationAdd env2 s2 [key] ?w1)"
  have a1: "fst (FragmentationAdd env1 s1 [key] w) = None" by (rule Add_ok[OF assms(2)]) simp
  have a2: "fst (FragmentationAdd env2 s2 [key] ?w1) = None" by (rule Add_ok[OF assms(3)]) simp
  then have "FragmentationAdd env2 s2 [key] ?w1 = (None, ?w2)" by (simp add: prod_eq_iff)
  from Add_None[OF this, of schema_dir key] assms(1)
  have "stores ?w2 schema_dir key = Some (Sprintf_d s2)" by simp
  with Get_result[OF assms(4,1), of ?w2] have "fst (FragmentationGet env3 key ?w2) = Inr s2"
    by (simp add: ParseInt_Sprintf_d)
  with a1 a2 show ?thesis by simp
qed

theorem add_is_blind_upsert_witness:
  "fst (FragmentationAdd healthy 5 [''k''] fresh) = None \<and>
   fst (FragmentationAdd healthy 9 [''k''] (snd (FragmentationAdd healthy 5 [''k''] fresh))) = None \<and>
   fst (FragmentationGet healthy ''k''
         (snd (FragmentationAdd healthy 9 [''k''] (snd (FragmentationAdd healthy 5 [''k''] fresh)))))
     = Inr 9"
  using add_is_blind_upsert[OF _ no_faults_healthy no_faults_healthy no_faults_healthy,
          of "''k''" 5 fresh 9]
  by simp

text \<open>
  Claim C7 (absence is not an error). For a non-empty key, in any environment: when the
  key has no entry and the store opens, \<open>FragmentationExists\<close> returns \<open>(false, nil)\<close>;
  and when it returns an error at all, the store could not be opened
  (\<open>CreateLevelDBDatabase\<close> failed) and the error wraps \<open>ErrDatabaseOpen\<close>. A read that
  fails after a successful open is reported as \<open>false\<close> too, never as an error.
\<close>

theorem exists_absent_is_false_not_error:
  assumes "key \<noteq> []"
  shows "(stores w schema_dir key = None \<and> (\<exists>ldb. fst (open_schema env w) = Inr ldb)
            \<longrightarrow> FragmentationExists env key w
                  = (Inr False, snd (FragmentationExists env key w))) \<and>
         (\<forall>e. fst (FragmentationExists env key w) = Inl e
            \<longrightarrow> e = Wrap ErrDatabaseOpen \<and> (\<exists>e'. fst (open_schema env w) = Inl e'))"
  using Exists_any_env[OF assms, of env w]
  by (auto simp: prod_eq_iff split: sum.splits)

theorem exists_absent_is_false_not_error_witness:
  "FragmentationExists healthy ''nobody'' fresh
     = (Inr False, snd (FragmentationExists healthy ''nobody'' fresh)) \<and>
   fst (FragmentationExists (\<lambda>t a. a = OpenFile schema_dir) ''nobody'' fresh)
     = Inl (Wrap ErrDatabaseOpen)"
proof -
  have o: "fst (open_schema healthy fresh) = Inr schema_dir"
    by (rule open_schema_ok[OF no_faults_healthy])
  have s: "stores fresh schema_dir ''nobody'' = None" by (simp add: fresh_def)
  have "fst (FragmentationExists (\<lambda>t a. a = OpenFile schema_dir) ''nobody'' fresh)
     = Inl (Wrap ErrDatabaseOpen)"
    by (simp add: FragmentationExists_def open_schema_def CreateLevelDBDatabase_def
        buildPath_schema os_Stat_def os_MkdirAll_def leveldb_OpenFile_def Let_def fresh_def)
  with exists_absent_is_false_not_error[of "''nobody''" fresh healthy] o s
  show ?thesis by simp
qed

text \<open>
  Claim C2 (the empty key), as stated: each of the five operations, given the empty
  string as its key (for \<open>FragmentationAdd\<close> the key list \<open>[""]\<close>), returns \<open>ErrEmptyKey\<close>
  and performs no I/O. This fails for \<open>FragmentationAdd\<close>: it rejects only an empty key
  \<^emph>\<open>list\<close>. Given \<open>[""]\<close> on a fresh disk with a working storage it stats and creates
  \<open>Database/GlobalSchema\<close>, opens the store, skips the key, closes the store and returns
  success.
\<close>

theorem add_of_empty_key_is_not_rejected:
  "fst (FragmentationAdd healthy 1 [''''] fresh) = None \<and>
   trace (snd (FragmentationAdd healthy 1 [''''] fresh)) =
     [Stat ''Database/GlobalSchema'', MkdirAll ''Database/GlobalSchema'',
      OpenFile ''Database/GlobalSchema'', DbClose ''Database/GlobalSchema''] \<and>
   ''Database/GlobalSchema'' \<in> dirs (snd (FragmentationAdd healthy 1 [''''] fresh)) \<and>
   ''Database/GlobalSchema'' \<notin> dirs fresh"
  by (simp add: FragmentationAdd_def open_schema_def CreateLevelDBDatabase_def
        buildPath_schema os_Stat_def os_MkdirAll_def leveldb_OpenFile_def ldb_Close_def
        Let_def fresh_def healthy_def schema_dir_def path_chain_def)

text \<open>
  Claim C2 as amended: \<open>FragmentationGet\<close>, \<open>FragmentationExists\<close>, \<open>FragmentationUpdate\<close>
  and \<open>FragmentationRemove\<close> given the empty key, and \<open>FragmentationAdd\<close> given no key at
  all, return \<open>ErrEmptyKey\<close> and leave the world as it was, its trace of I/O included.
  \<open>FragmentationAdd\<close> given the key list \<open>[""]\<close> is not rejected: it opens the store
  (its I/O starts with the \<open>Stat\<close> of the directory), writes no entry, and returns success,
  or the wrapped \<open>ErrDatabaseOpen\<close> when the store does not open; with a working storage it
  returns success.
\<close>

theorem empty_key_rejection:
  "FragmentationGet env [] w = (Inl ErrEmptyKey, w) \<and>
   FragmentationExists env [] w = (Inl ErrEmptyKey, w) \<and>
   FragmentationUpdate env [] newShard w = (Some ErrEmptyKey, w) \<and>
   FragmentationRemove env [] w = (Some ErrEmptyKey, w) \<and>
   FragmentationAdd env shard [] w = (Some ErrEmptyKey, w) \<and>
   (fst (FragmentationAdd env shard [[]] w) = None \<or>
    fst (FragmentationAdd env shard [[]] w) = Some (Wrap ErrDatabaseOpen)) \<and>
   (\<exists>t. trace (snd (FragmentationAdd env shard [[]] w)) = trace w @ Stat schema_dir # t) \<and>
   stores (snd (FragmentationAdd env shard [[]] w)) = stores w \<and>
   fst (FragmentationAdd healthy shard [[]] w) = None"
proof -
  obtain r w1 where o: "open_schema env w = (r, w1)" by (cases "open_schema env w")
  have a: "(fst (FragmentationAdd env shard [[]] w) = None \<or>
    fst (FragmentationAdd env shard [[]] w) = Some (Wrap ErrDatabaseOpen)) \<and>
   (\<exists>t. trace (snd (FragmentationAdd env shard [[]] w)) = trace w @ Stat schema_dir # t) \<and>
   stores (snd (FragmentationAdd env shard [[]] w)) = stores w"
    using o open_schema_cases[OF o]
    by (auto simp: FragmentationAdd_def ldb_Close_def)
  have b: "fst (FragmentationAdd healthy shard [[]] w) = None"
    by (rule Add_ok[OF no_faults_healthy]) simp
  show ?thesis
    using a b
    by (simp add: FragmentationGet_def FragmentationExists_def FragmentationUpdate_def
        FragmentationRemove_def FragmentationAdd_def)
qed

text \<open>
  Claim C4 (update requires existence), as stated: for every key that has no assignment,
  \<open>FragmentationUpdate\<close> fails with \<open>ErrShardNotFound\<close>. The empty string is a key
  without an assignment, and for it the function returns \<open>ErrEmptyKey\<close> before it looks
  anything up; that error is not \<open>ErrShardNotFound\<close> and does not wrap it.
\<close>

theorem update_of_empty_key_is_rejected_first:
  "stores fresh schema_dir [] = None \<and>
   fst (FragmentationUpdate healthy [] 1 fresh) = Some ErrEmptyKey \<and>
   \<not> errors_Is ErrEmptyKey ErrShardNotFound"
  by (simp add: FragmentationUpdate_def fresh_def)

text \<open>
  Claim C4 as amended: for every non-empty key that has no assignment, with a storage that
  does not fail, \<open>FragmentationUpdate\<close> fails with an error that wraps
  \<open>ErrShardNotFound\<close>, the store is left as it was, so no assignment is created, and
  \<open>FragmentationExists\<close> is still false afterwards. The store is left as it was in every
  environment (\<open>env0\<close>), whatever the call returns.
\<close>

theorem update_requires_existence:
  assumes "key \<noteq> []" and "stores w schema_dir key = None"
    and "no_faults env" and "no_faults env'"
  shows "fst (FragmentationUpdate env key newShard w) = Some (Wrap ErrShardNotFound) \<and>
         errors_Is (Wrap ErrShardNotFound) ErrShardNotFound \<and>
         stores (snd (FragmentationUpdate env key newShard w)) = stores w \<and>
         stores (snd (FragmentationUpdate env0 key newShard w)) = stores w \<and>
         fst (FragmentationExists env' key (snd (FragmentationUpdate env key newShard w)))
           = Inr False"
proof -
  have r: "fst (FragmentationUpdate env key newShard w) = Some (Wrap ErrShardNotFound)"
    using Update_result(1)[OF assms(3,1), of newShard w] assms(2) by simp
  have s: "stores (snd (FragmentationUpdate env key newShard w)) = stores w"
    by (rule Update_absent[OF assms(2)])
  have s0: "stores (snd (FragmentationUpdate env0 key newShard w)) = stores w"
    by (rule Update_absent[OF assms(2)])
  have "fst (FragmentationExists env' key (snd (FragmentationUpdate env key newShard w)))
           = Inr False"
    using Exists_result[OF assms(4,1), of "snd (FragmentationUpdate env key newShard w)"] s assms(2)
    by simp
  with r s s0 show ?thesis by simp
qed

theorem update_requires_existence_witness:
  "fst (FragmentationUpdate healthy ''unknown'' 1 fresh) = Some (Wrap ErrShardNotFound) \<and>
   stores (snd (FragmentationUpdate healthy ''unknown'' 1 fresh)) = stores fresh \<and>
   fst (FragmentationExists healthy ''unknown''
          (snd (FragmentationUpdate healthy ''unknown'' 1 fresh))) = Inr False"
proof -
  have "stores fresh schema_dir ''unknown'' = None" by (simp add: fresh_def)
  from update_requires_existence[OF _ this no_faults_healthy no_faults_healthy, of 1]
  show ?thesis by simp
qed

text \<open>
  Claim C5 (remove requires existence), as stated: \<open>FragmentationRemove\<close> on a key with no
  assignment fails with \<open>ErrShardNotFound\<close>. For the empty string, which has no
  assignment, it returns \<open>ErrEmptyKey\<close> before it opens the store.
\<close>

theorem remove_of_empty_key_is_rejected_first:
  "stores fresh schema_dir [] = None \<and>
   fst (FragmentationRemove healthy [] fresh) = Some ErrEmptyKey \<and>
   \<not> errors_Is ErrEmptyKey ErrShardNotFound"
  by (simp add: FragmentationRemove_def fresh_def)

text \<open>
  Claim C5 as amended: with a storage that does not fail and a non-empty key,
  \<open>FragmentationRemove\<close> on a key with no assignment fails with an error that wraps
  \<open>ErrShardNotFound\<close>; and after \<open>FragmentationAdd(shard, key)\<close> the removal of the key
  succeeds, after which \<open>FragmentationExists\<close> returns false and \<open>FragmentationGet\<close> fails
  with the not-found error.
\<close>

theorem remove_requires_existence:
  assumes "key \<noteq> []"
    and "no_faults env1" and "no_faults env2" and "no_faults env3" and "no_faults env4"
  shows "(stores w schema_dir key = None \<longrightarrow>
            fst (FragmentationRemove env2 key w) = Some (Wrap ErrShardNotFound) \<and>
            errors_Is (Wrap ErrShardNotFound) ErrShardNotFound) \<and>
         fst (FragmentationAdd env1 shard [key] w) = None \<and>
         fst (FragmentationRemove env2 key (snd (FragmentationAdd env1 shard [key] w))) = None \<and>
         fst (FragmentationExists env3 key
               (snd (FragmentationRemove env2 key (snd (FragmentationAdd env1 shard [key] w)))))
           = Inr False \<and>
         fst (FragmentationGet env4 key
               (snd (FragmentationRemove env2 key (snd (FragmentationAdd env1 shard [key] w)))))
           = Inl (Wrap ErrShardNotFound)"
proof -
  let ?w1 = "snd (FragmentationAdd env1 shard [key] w)"
  let ?w2 = "snd (FragmentationRemove env2 key ?w1)"
  have a: "fst (FragmentationAdd env1 shard [key] w) = None" by (rule Add_ok[OF assms(2)]) simp
  then have "FragmentationAdd env1 shard [key] w = (None, ?w1)" by (simp add: prod_eq_iff)
  from Add_None[OF this, of schema_dir key] assms(1)
  have s1: "stores ?w1 schema_dir key = Some (Sprintf_d shard)" by simp
  have r: "fst (FragmentationRemove env2 key ?w1) = None"
    using Remove_result(1)[OF assms(3,1), of ?w1] s1 by simp
  have s2: "stores ?w2 schema_dir key = None"
    using Remove_result(2)[OF assms(3,1), of ?w1] s1 by simp
  have e: "fst (FragmentationExists env3 key ?w2) = Inr False"
    using Exists_result[OF assms(4,1), of ?w2] s2 by simp
  have g: "fst (FragmentationGet env4 key ?w2) = Inl (Wrap ErrShardNotFound)"
    using Get_result[OF assms(5,1), of ?w2] s2 by simp
  have u: "stores w schema_dir key = None \<longrightarrow>
            fst (FragmentationRemove env2 key w) = Some (Wrap ErrShardNotFound)"
    using Remove_result(1)[OF assms(3,1), of w] by simp
  from a r e g u show ?thesis by simp
qed

theorem remove_requires_existence_witness:
  "stores fresh schema_dir ''unknown'' = None \<and>
   fst (FragmentationRemove healthy ''unknown'' fresh) = Some (Wrap ErrShardNotFound) \<and>
   fst (FragmentationAdd healthy 3 [''unknown''] fresh) = None \<and>
   fst (FragmentationRemove healthy ''unknown''
          (snd (FragmentationAdd healthy 3 [''unknown''] fresh))) = None \<and>
   fst (FragmentationExists healthy ''unknown''
         (snd (FragmentationRemove healthy ''unknown''
                (snd (FragmentationAdd healthy 3 [''unknown''] fresh))))) = Inr False \<and>
   fst (FragmentationGet healthy ''unknown''
         (snd (FragmentationRemove healthy ''unknown''
                (snd (FragmentationAdd healthy 3 [''unknown''] fresh)))))
     = Inl (Wrap ErrShardNotFound)"
proof -
  have s: "stores fresh schema_dir ''unknown'' = None" by (simp add: fresh_def)
  from remove_requires_existence[OF _ no_faults_healthy no_faults_healthy no_faults_healthy
         no_faults_healthy, of "''unknown''" fresh 3] s
  show ?thesis by simp
qed

text \<open>
  Claim C10 (the stored values are decimal numbers). In every world reached from an empty
  store by calls of the operations of the directory, with any arguments and in any
  environment, every value in the store is the decimal text of an \<open>int64\<close>, and
  \<open>FragmentationGet\<close>, for any key and in any environment, does not fail with
  \<open>ErrShardConversion\<close>. (\<open>corrupt_store_fails_conversion\<close> above shows the branch taken
  on a store that holds other text.)
\<close>

theorem get_never_fails_conversion:
  assumes "reachable w"
  shows "decimal_store w \<and>
         (\<forall>e. fst (FragmentationGet env key w) = Inl e \<longrightarrow> \<not> errors_Is e ErrShardConversion)"
proof -
  have d: "decimal_store w" by (rule reachable_decimal_store[OF assms])
  have "fst (FragmentationGet env key w) \<noteq> Inl (Wrap ErrShardConversion)"
  proof
    assume "fst (FragmentationGet env key w) = Inl (Wrap ErrShardConversion)"
    from Get_conversion[OF this] obtain v e where
      v: "stores w schema_dir key = Some v" and p: "ParseInt v = Inl e" by blast
    from d v obtain n where "v = Sprintf_d n" by (auto simp: decimal_store_def)
    with p show False by (simp add: ParseInt_Sprintf_d)
  qed
  with d Get_errors[of env key w] show ?thesis by auto
qed

theorem get_never_fails_conversion_witness:
  "reachable (snd (FragmentationUpdate healthy ''k'' 9 (snd (FragmentationAdd healthy 5 [''k''] fresh)))) \<and>
   fst (FragmentationGet healthy ''k''
         (snd (FragmentationUpdate healthy ''k'' 9 (snd (FragmentationAdd healthy 5 [''k''] fresh)))))
     \<noteq> Inl (Wrap ErrShardConversion)"
proof -
  have "reachable fresh" by (rule reachable.start) (simp add: fresh_def)
  then have r: "reachable (snd (FragmentationUpdate healthy ''k'' 9
                  (snd (FragmentationAdd healthy 5 [''k''] fresh))))"
    by (intro reachable.update reachable.add)
  from get_never_fails_conversion[OF r, of healthy "''k''"] r show ?thesis by auto
qed

end
